theory Spec2Isabelle
  imports Complex_Main
begin

section \<open>Library values used by the two engines\<close>

text \<open>
  The repository has two Python modules: \<^verbatim>\<open>generate_data.py\<close> (the standalone engine
  \<^verbatim>\<open>run_configurable_simulation\<close>) and \<^verbatim>\<open>dashboard.py\<close> (the engine
  \<^verbatim>\<open>run_simulation\<close> and the KPI function \<^verbatim>\<open>calculate_kpis\<close>).

  Conventions of the embedding:
  \<^item> a \<^verbatim>\<open>datetime\<close> is the integer number of microseconds since a fixed epoch, a
    \<^verbatim>\<open>timedelta\<close> an integer number of microseconds (the resolution of both Python
    types); the year range of \<^verbatim>\<open>datetime\<close> is not modelled;
  \<^item> a Python \<^verbatim>\<open>float\<close> is a real number: rounding errors of binary floating point
    are not modelled;
  \<^item> an exception is a value of \<open>py_error\<close>.
\<close>

type_synonym time = int

datatype py_error = KeyError | ValueError

text \<open>Rounding to the nearest integer, ties to the even neighbour (Python's rule).\<close>

definition round_half_even :: "real \<Rightarrow> int" where
  "round_half_even x =
     (let f = \<lfloor>x\<rfloor>; d = x - of_int f
      in if d < 1 / 2 then f
         else if 1 / 2 < d then f + 1
         else if even f then f else f + 1)"

text \<open>\<^verbatim>\<open>timedelta(hours=h)\<close>: \<open>h\<close> hours as microseconds, rounded to the nearest one.\<close>

definition timedelta_hours :: "real \<Rightarrow> int" where
  "timedelta_hours h = round_half_even (h * 3600000000)"

text \<open>\<^verbatim>\<open>round(x, 2)\<close>\<close>

definition round2 :: "real \<Rightarrow> real" where
  "round2 x = of_int (round_half_even (x * 100)) / 100"

text \<open>
  \<^verbatim>\<open>str(n)\<close> for an integer, as the f-strings \<^verbatim>\<open>f"SN{100 + i}"\<close> and
  \<^verbatim>\<open>f"{stage_name}_{station_idx + 1}"\<close> format it.
\<close>

definition digit_char :: "nat \<Rightarrow> char" where
  "digit_char d = char_of (48 + d)"

fun str_nat :: "nat \<Rightarrow> string" where
  "str_nat n = (if n < 10 then [digit_char n] else str_nat (n div 10) @ [digit_char (n mod 10)])"

declare str_nat.simps [simp del]

definition str_int :: "int \<Rightarrow> string" where
  "str_int i = (if i < 0 then CHR ''-'' # str_nat (nat (- i)) else str_nat (nat i))"

text \<open>
  \<^verbatim>\<open>np.argmin(xs)\<close> on a Python list: \<^verbatim>\<open>ValueError\<close> on an empty sequence, otherwise a
  left-to-right scan that keeps the running minimum and replaces it only by a strictly
  smaller entry, so that the first occurrence of the minimum is returned.
  \<open>argmin_scan xs i m mi\<close> scans the rest \<open>xs\<close>, whose first entry has index \<open>i\<close>, with
  running minimum \<open>m\<close> found at index \<open>mi\<close>.
\<close>

fun argmin_scan :: "time list \<Rightarrow> nat \<Rightarrow> time \<Rightarrow> nat \<Rightarrow> nat" where
  "argmin_scan [] i m mi = mi"
| "argmin_scan (x # xs) i m mi =
     (if x < m then argmin_scan xs (Suc i) x i else argmin_scan xs (Suc i) m mi)"

definition argmin :: "time list \<Rightarrow> py_error + nat" where
  "argmin xs = (case xs of [] \<Rightarrow> Inl ValueError | x # rest \<Rightarrow> Inr (argmin_scan rest 1 x 0))"

section \<open>Configuration, ledger rows and simulation state\<close>

text \<open>
  The configuration is the object \<^verbatim>\<open>json.load\<close> returns, a dictionary, or \<^verbatim>\<open>None\<close> when
  the file is missing. Of its top-level keys the engines read \<^verbatim>\<open>simulation_parameters\<close> and
  \<^verbatim>\<open>production_stages\<close>; each is \<open>None\<close> here when the dictionary does not have it, and
  \<open>other_keys\<close> lists the keys the engines do not read, so that the empty dictionary is
  the configuration with no key at all. \<open>production_stages\<close> keeps the declaration order
  of the stages, as the dictionary does; a dictionary has no key twice. The keys inside
  \<^verbatim>\<open>simulation_parameters\<close> and inside each stage are taken as present and of the right
  type. \<open>start_date\<close> holds what \<^verbatim>\<open>datetime.strptime(params['start_date'], '%Y-%m-%d')\<close>
  returns, \<open>None\<close> when it raises \<^verbatim>\<open>ValueError\<close>.
\<close>

record stage_params =
  mean_time_hours :: real
  std_dev_hours :: real
  pass_rate :: real
  station_count :: int

record sim_params =
  start_date :: "time option"
  num_starships :: int

record config =
  simulation_parameters :: "sim_params option"
  production_stages :: "(string \<times> stage_params) list option"
  other_keys :: "string list"

text \<open>\<^verbatim>\<open>not config\<close>: true of \<^verbatim>\<open>None\<close> and of the empty dictionary.\<close>

definition not_config :: "config option \<Rightarrow> bool" where
  "not_config cfg =
     (case cfg of None \<Rightarrow> True
      | Some c \<Rightarrow>
          simulation_parameters c = None \<and> production_stages c = None \<and> other_keys c = [])"

text \<open>
  A row of the dashboard engine's ledger has four columns; a row of the standalone
  engine's ledger has three more.
\<close>

record log_row =
  ship_id :: string
  stage :: string
  start_time :: time
  end_time :: time

record production_event = log_row +
  station_id :: string
  duration_hours :: real
  qc_passed :: bool

text \<open>The three mutable variables of a run.\<close>

record 'e sim_state =
  station_availability :: "string \<rightharpoonup> time list"
  ship_completion_times :: "string \<rightharpoonup> time"
  production_log :: "'e list"

text \<open>
  Randomness. Each pass through the body of the \<^verbatim>\<open>while True\<close> loop calls
  \<^verbatim>\<open>np.random.normal\<close> once and \<^verbatim>\<open>random.random\<close> once. A \<open>draw\<close> is the pair of
  values the two calls return, and a run is given the list of draws that the two
  generators will produce, in order. The list also bounds the run: a loop that needs a
  draw when none is left has not finished, which is the result \<open>None\<close>.
  \<^verbatim>\<open>random.random()\<close> returns a value in \<open>[0, 1)\<close>.
\<close>

type_synonym draw = "real \<times> real"


section \<open>The standalone engine (generate\_data.py)\<close>

text \<open>
  One pass through the body of the \<^verbatim>\<open>while True\<close> loop (lines 44 to 82). The result
  says whether the loop breaks (QC passed) and gives the updated variables.
  \<^verbatim>\<open>np.random.normal\<close> raises \<^verbatim>\<open>ValueError\<close> on a negative scale.
\<close>

definition attempt ::
  "string \<Rightarrow> string \<Rightarrow> stage_params \<Rightarrow> production_event sim_state \<Rightarrow> draw
    \<Rightarrow> py_error + (bool \<times> production_event sim_state)" where
  "attempt sid stage_name sp st d =
     (case station_availability st stage_name of
        None \<Rightarrow> Inl KeyError
      | Some avail \<Rightarrow>
     (case argmin avail of
        Inl e \<Rightarrow> Inl e
      | Inr station_idx \<Rightarrow>
     (case ship_completion_times st sid of
        None \<Rightarrow> Inl KeyError
      | Some ready \<Rightarrow>
     if std_dev_hours sp < 0 then Inl ValueError
     else
       let available_time = avail ! station_idx;
           t_start = max ready available_time;
           processing_time_hours = max 1 (fst d);
           t_end = t_start + timedelta_hours processing_time_hours;
           qc = (snd d < pass_rate sp);
           log' = production_log st @
             [\<lparr>ship_id = sid, stage = stage_name, start_time = t_start, end_time = t_end,
               station_id = stage_name @ ''_'' @ str_int (int station_idx + 1),
               duration_hours = round2 processing_time_hours, qc_passed = qc\<rparr>]
       in if qc then
            Inr (True,
              \<lparr>station_availability =
                 (station_availability st)(stage_name \<mapsto> avail[station_idx := t_end]),
               ship_completion_times = (ship_completion_times st)(sid \<mapsto> t_end),
               production_log = log'\<rparr>)
          else
            let rework_penalty = mean_time_hours sp * 0.25;
                rework_end_time = t_end + timedelta_hours rework_penalty
            in Inr (False,
              \<lparr>station_availability =
                 (station_availability st)(stage_name \<mapsto> avail[station_idx := rework_end_time]),
               ship_completion_times = (ship_completion_times st)(sid \<mapsto> rework_end_time),
               production_log = log'\<rparr>))))"

text \<open>The \<^verbatim>\<open>while True\<close> loop: attempts until one passes QC.\<close>

fun stage_attempts ::
  "string \<Rightarrow> string \<Rightarrow> stage_params \<Rightarrow> production_event sim_state \<Rightarrow> draw list
    \<Rightarrow> (py_error + production_event sim_state \<times> draw list) option" where
  "stage_attempts sid stage_name sp st [] = None"
| "stage_attempts sid stage_name sp st (d # ds) =
     (case attempt sid stage_name sp st d of
        Inl e \<Rightarrow> Some (Inl e)
      | Inr (passed, st') \<Rightarrow>
          if passed then Some (Inr (st', ds)) else stage_attempts sid stage_name sp st' ds)"

text \<open>\<^verbatim>\<open>for stage_name, stage_params in stages.items()\<close>\<close>

fun run_stages ::
  "string \<Rightarrow> (string \<times> stage_params) list \<Rightarrow> production_event sim_state \<Rightarrow> draw list
    \<Rightarrow> (py_error + production_event sim_state \<times> draw list) option" where
  "run_stages sid [] st ds = Some (Inr (st, ds))"
| "run_stages sid ((stage_name, sp) # rest) st ds =
     (case stage_attempts sid stage_name sp st ds of
        None \<Rightarrow> None
      | Some (Inl e) \<Rightarrow> Some (Inl e)
      | Some (Inr (st', ds')) \<Rightarrow> run_stages sid rest st' ds')"

text \<open>\<^verbatim>\<open>f"SN{100 + i}"\<close>\<close>

definition ship_name :: "int \<Rightarrow> string" where
  "ship_name i = ''SN'' @ str_int (100 + i)"

text \<open>\<^verbatim>\<open>for i in range(1, params['num_starships'] + 1)\<close>, over the list of the \<open>i\<close>.\<close>

fun run_ships ::
  "int list \<Rightarrow> time \<Rightarrow> (string \<times> stage_params) list \<Rightarrow> production_event sim_state
    \<Rightarrow> draw list \<Rightarrow> (py_error + production_event sim_state \<times> draw list) option" where
  "run_ships [] start stages st ds = Some (Inr (st, ds))"
| "run_ships (i # rest) start stages st ds =
     (case run_stages (ship_name i) stages
             (st\<lparr>ship_completion_times := (ship_completion_times st)(ship_name i \<mapsto> start)\<rparr>) ds of
        None \<Rightarrow> None
      | Some (Inl e) \<Rightarrow> Some (Inl e)
      | Some (Inr (st', ds')) \<Rightarrow> run_ships rest start stages st' ds')"

text \<open>
  The dictionary comprehension that builds \<^verbatim>\<open>station_availability\<close>:
  \<^verbatim>\<open>[start_date] * n\<close> is the empty list when \<open>n \<le> 0\<close>.
\<close>

definition initial_availability ::
  "time \<Rightarrow> (string \<times> stage_params) list \<Rightarrow> (string \<rightharpoonup> time list)" where
  "initial_availability start stages =
     map_of (map (\<lambda>(stage_name, details).
       (stage_name, replicate (nat (station_count details)) start)) stages)"

definition run_configurable_simulation ::
  "config option \<Rightarrow> draw list \<Rightarrow> (py_error + production_event list) option" where
  "run_configurable_simulation cfg ds =
     (if not_config cfg then Some (Inr [])
      else case cfg of
        None \<Rightarrow> Some (Inr [])
      | Some c \<Rightarrow>
     (case simulation_parameters c of
        None \<Rightarrow> Some (Inl KeyError)
      | Some params \<Rightarrow>
     (case production_stages c of
        None \<Rightarrow> Some (Inl KeyError)
      | Some stages \<Rightarrow>
     (case start_date params of
        None \<Rightarrow> Some (Inl ValueError)
      | Some start \<Rightarrow>
     (case run_ships [1..num_starships params] start stages
             \<lparr>station_availability = initial_availability start stages,
              ship_completion_times = Map.empty,
              production_log = []\<rparr> ds of
        None \<Rightarrow> None
      | Some (Inl e) \<Rightarrow> Some (Inl e)
      | Some (Inr (st, rest)) \<Rightarrow> Some (Inr (production_log st)))))))"

section \<open>The dashboard engine (dashboard.py)\<close>

text \<open>The body of the \<^verbatim>\<open>while True\<close> loop of \<^verbatim>\<open>run_simulation\<close> (lines 42 to 60).\<close>

definition dash_attempt ::
  "string \<Rightarrow> string \<Rightarrow> stage_params \<Rightarrow> log_row sim_state \<Rightarrow> draw
    \<Rightarrow> py_error + (bool \<times> log_row sim_state)" where
  "dash_attempt sid stage_name sp st d =
     (case station_availability st stage_name of
        None \<Rightarrow> Inl KeyError
      | Some avail \<Rightarrow>
     (case argmin avail of
        Inl e \<Rightarrow> Inl e
      | Inr station_idx \<Rightarrow>
     (case ship_completion_times st sid of
        None \<Rightarrow> Inl KeyError
      | Some ready \<Rightarrow>
     if std_dev_hours sp < 0 then Inl ValueError
     else
       let available_time = avail ! station_idx;
           t_start = max ready available_time;
           processing_time_hours = max 1 (fst d);
           t_end = t_start + timedelta_hours processing_time_hours;
           qc = (snd d < pass_rate sp);
           log' = production_log st @
             [\<lparr>ship_id = sid, stage = stage_name, start_time = t_start, end_time = t_end\<rparr>]
       in if qc then
            Inr (True,
              \<lparr>station_availability =
                 (station_availability st)(stage_name \<mapsto> avail[station_idx := t_end]),
               ship_completion_times = (ship_completion_times st)(sid \<mapsto> t_end),
               production_log = log'\<rparr>)
          else
            let rework_penalty = mean_time_hours sp * 0.25;
                rework_end_time = t_end + timedelta_hours rework_penalty
            in Inr (False,
              \<lparr>station_availability =
                 (station_availability st)(stage_name \<mapsto> avail[station_idx := rework_end_time]),
               ship_completion_times = (ship_completion_times st)(sid \<mapsto> rework_end_time),
               production_log = log'\<rparr>))))"

fun dash_stage_attempts ::
  "string \<Rightarrow> string \<Rightarrow> stage_params \<Rightarrow> log_row sim_state \<Rightarrow> draw list
    \<Rightarrow> (py_error + log_row sim_state \<times> draw list) option" where
  "dash_stage_attempts sid stage_name sp st [] = None"
| "dash_stage_attempts sid stage_name sp st (d # ds) =
     (case dash_attempt sid stage_name sp st d of
        Inl e \<Rightarrow> Some (Inl e)
      | Inr (passed, st') \<Rightarrow>
          if passed then Some (Inr (st', ds)) else dash_stage_attempts sid stage_name sp st' ds)"

fun dash_run_stages ::
  "string \<Rightarrow> (string \<times> stage_params) list \<Rightarrow> log_row sim_state \<Rightarrow> draw list
    \<Rightarrow> (py_error + log_row sim_state \<times> draw list) option" where
  "dash_run_stages sid [] st ds = Some (Inr (st, ds))"
| "dash_run_stages sid ((stage_name, sp) # rest) st ds =
     (case dash_stage_attempts sid stage_name sp st ds of
        None \<Rightarrow> None
      | Some (Inl e) \<Rightarrow> Some (Inl e)
      | Some (Inr (st', ds')) \<Rightarrow> dash_run_stages sid rest st' ds')"

fun dash_run_ships ::
  "int list \<Rightarrow> time \<Rightarrow> (string \<times> stage_params) list \<Rightarrow> log_row sim_state
    \<Rightarrow> draw list \<Rightarrow> (py_error + log_row sim_state \<times> draw list) option" where
  "dash_run_ships [] start stages st ds = Some (Inr (st, ds))"
| "dash_run_ships (i # rest) start stages st ds =
     (case dash_run_stages (ship_name i) stages
             (st\<lparr>ship_completion_times := (ship_completion_times st)(ship_name i \<mapsto> start)\<rparr>) ds of
        None \<Rightarrow> None
      | Some (Inl e) \<Rightarrow> Some (Inl e)
      | Some (Inr (st', ds')) \<Rightarrow> dash_run_ships rest start stages st' ds')"

definition run_simulation ::
  "config option \<Rightarrow> draw list \<Rightarrow> (py_error + log_row list) option" where
  "run_simulation cfg ds =
     (if not_config cfg then Some (Inr [])
      else case cfg of
        None \<Rightarrow> Some (Inr [])
      | Some c \<Rightarrow>
     (case simulation_parameters c of
        None \<Rightarrow> Some (Inl KeyError)
      | Some params \<Rightarrow>
     (case production_stages c of
        None \<Rightarrow> Some (Inl KeyError)
      | Some stages \<Rightarrow>
     (case start_date params of
        None \<Rightarrow> Some (Inl ValueError)
      | Some start \<Rightarrow>
     (case dash_run_ships [1..num_starships params] start stages
             \<lparr>station_availability = initial_availability start stages,
              ship_completion_times = Map.empty,
              production_log = []\<rparr> ds of
        None \<Rightarrow> None
      | Some (Inl e) \<Rightarrow> Some (Inl e)
      | Some (Inr (st, rest)) \<Rightarrow> Some (Inr (production_log st)))))))"

section \<open>The KPI function (dashboard.py)\<close>

text \<open>
  \<^verbatim>\<open>calculate_kpis\<close> reads the columns \<^verbatim>\<open>ship_id\<close>, \<^verbatim>\<open>stage\<close>, \<^verbatim>\<open>start_time\<close> and
  \<^verbatim>\<open>end_time\<close> of a data frame, so it takes the ledger of either engine.
  \<^verbatim>\<open>.days\<close> of a time difference is its floor division by one day.
\<close>

definition microseconds_per_day :: int where
  "microseconds_per_day = 86400000000"

definition calculate_kpis :: "'a log_row_scheme list \<Rightarrow> nat \<times> real \<times> int" where
  "calculate_kpis dataframe =
     (if dataframe = [] then (0, 0, 0)
      else
        let df_completed = filter (\<lambda>r. stage r = ''Final_Checkout'') dataframe
        in if df_completed = [] then (0, 0, 0)
           else
             let total_ships = length (remdups (map ship_id df_completed));
                 total_time = (Max (set (map end_time dataframe))
                   - Min (set (map start_time dataframe))) div microseconds_per_day;
                 throughput = (if total_time > 0
                   then real total_ships / (real_of_int total_time / 7) else 0)
             in (total_ships, throughput, total_time))"

section \<open>Definitions used in the statements and proofs\<close>



text \<open>
  The dashboard engine's variables seen from the standalone engine's: the same two
  dictionaries, and every row of the log cut down to the four common columns.
\<close>

definition project_state :: "production_event sim_state \<Rightarrow> log_row sim_state" where
  "project_state st =
     \<lparr>station_availability = station_availability st,
      ship_completion_times = ship_completion_times st,
      production_log = map log_row.truncate (production_log st)\<rparr>"

definition project_outcome ::
  "(py_error + production_event sim_state \<times> draw list) option
    \<Rightarrow> (py_error + log_row sim_state \<times> draw list) option" where
  "project_outcome = map_option (map_sum id (map_prod project_state id))"

text \<open>
  The values one pass through the loop body computes, given the selected station
  \<open>idx\<close>: when the attempt ends, when the station is free again, and the row it logs.
\<close>

definition finish_time :: "time \<Rightarrow> time list \<Rightarrow> nat \<Rightarrow> draw \<Rightarrow> time" where
  "finish_time ready avail idx d = max ready (avail ! idx) + timedelta_hours (max 1 (fst d))"

definition free_at :: "stage_params \<Rightarrow> time \<Rightarrow> time list \<Rightarrow> nat \<Rightarrow> draw \<Rightarrow> time" where
  "free_at sp ready avail idx d =
     (if snd d < pass_rate sp then finish_time ready avail idx d
      else finish_time ready avail idx d + timedelta_hours (mean_time_hours sp * 0.25))"

definition event_of ::
  "string \<Rightarrow> string \<Rightarrow> stage_params \<Rightarrow> time \<Rightarrow> time list \<Rightarrow> nat \<Rightarrow> draw \<Rightarrow> production_event" where
  "event_of sid n sp ready avail idx d =
     \<lparr>ship_id = sid, stage = n, start_time = max ready (avail ! idx),
      end_time = finish_time ready avail idx d,
      station_id = n @ ''_'' @ str_int (int idx + 1),
      duration_hours = round2 (max 1 (fst d)), qc_passed = (snd d < pass_rate sp)\<rparr>"

text \<open>
  The rows of one stage loop of one unit: all of that unit and stage, the last one passed,
  the others failed. \<open>blocks_for\<close> relates a list of (unit, stage) pairs to the list of
  their blocks.
\<close>

definition stage_block :: "string \<Rightarrow> string \<Rightarrow> production_event list \<Rightarrow> bool" where
  "stage_block sid n blk =
     (blk \<noteq> [] \<and> list_all (\<lambda>e. ship_id e = sid \<and> stage e = n) blk
      \<and> qc_passed (last blk) \<and> list_all (\<lambda>e. \<not> qc_passed e) (butlast blk))"

fun blocks_for :: "(string \<times> string) list \<Rightarrow> production_event list list \<Rightarrow> bool" where
  "blocks_for [] [] = True"
| "blocks_for ((sid, n) # ps) (blk # blks) = (stage_block sid n blk \<and> blocks_for ps blks)"
| "blocks_for _ _ = False"

definition stage_pairs :: "string \<Rightarrow> (string \<times> stage_params) list \<Rightarrow> (string \<times> string) list" where
  "stage_pairs sid stages = map (\<lambda>s. (sid, fst s)) stages"

definition run_pairs :: "int list \<Rightarrow> (string \<times> stage_params) list \<Rightarrow> (string \<times> string) list" where
  "run_pairs ids stages = concat (map (\<lambda>i. stage_pairs (ship_name i) stages) ids)"

text \<open>
  Every station known to \<open>m\<close> is known to \<open>m'\<close>, in an array of the same length, with a
  value that is not smaller.
\<close>

definition avail_le :: "(string \<rightharpoonup> time list) \<Rightarrow> (string \<rightharpoonup> time list) \<Rightarrow> bool" where
  "avail_le m m' =
     (\<forall>n avail. m n = Some avail \<longrightarrow>
        (\<exists>avail'. m' n = Some avail' \<and> length avail' = length avail
          \<and> (\<forall>j < length avail. avail ! j \<le> avail' ! j)))"


text \<open>Reading a decimal numeral back, the inverse of \<open>str_nat\<close>.\<close>

definition parse_nat :: "string \<Rightarrow> nat" where
  "parse_nat s = foldl (\<lambda>a c. 10 * a + (of_char c - 48)) 0 s"

subsection \<open>Concrete inputs\<close>

text \<open>
  A configuration with two stages and two units, six draws for it (the first and the
  fifth fail QC), and the ledger the standalone engine produces from them.
\<close>

definition example_stages :: "(string \<times> stage_params) list" where
  "example_stages =
     [(''Welding'', \<lparr>mean_time_hours = 10, std_dev_hours = 2, pass_rate = 0.9, station_count = 2\<rparr>),
      (''Final_Checkout'', \<lparr>mean_time_hours = 8, std_dev_hours = 1, pass_rate = 0.95, station_count = 1\<rparr>)]"

definition example_config :: config where
  "example_config =
     \<lparr>simulation_parameters = Some \<lparr>start_date = Some 0, num_starships = 2\<rparr>,
      production_stages = Some example_stages,
      other_keys = []\<rparr>"

definition example_draws :: "draw list" where
  "example_draws = [(12, 0.95), (9.5, 0.2), (8, 0.5), (0.3, 0.1), (7.25, 0.99), (8, 0.3)]"

definition example_ledger :: "production_event list" where
  "example_ledger =
   [\<lparr>ship_id = ''SN101'', stage = ''Welding'', start_time = 0,
           end_time = 43200000000, station_id = ''Welding_1'',
           duration_hours = 12, qc_passed = False\<rparr>,
        \<lparr>ship_id = ''SN101'', stage = ''Welding'', start_time = 52200000000,
           end_time = 86400000000, station_id = ''Welding_2'',
           duration_hours = 19 / 2, qc_passed = True\<rparr>,
        \<lparr>ship_id = ''SN101'', stage = ''Final_Checkout'',
           start_time = 86400000000, end_time = 115200000000,
           station_id = ''Final_Checkout_1'', duration_hours = 8,
           qc_passed = True\<rparr>,
        \<lparr>ship_id = ''SN102'', stage = ''Welding'', start_time = 52200000000,
           end_time = 55800000000, station_id = ''Welding_1'',
           duration_hours = 1, qc_passed = True\<rparr>,
        \<lparr>ship_id = ''SN102'', stage = ''Final_Checkout'',
           start_time = 115200000000, end_time = 141300000000,
           station_id = ''Final_Checkout_1'', duration_hours = 29 / 4,
           qc_passed = False\<rparr>,
        \<lparr>ship_id = ''SN102'', stage = ''Final_Checkout'',
           start_time = 148500000000, end_time = 177300000000,
           station_id = ''Final_Checkout_1'', duration_hours = 8,
           qc_passed = True\<rparr>]"


text \<open>The variables of a run before the first attempt of unit 1 at a stage with two stations.\<close>

definition welding :: stage_params where
  "welding = \<lparr>mean_time_hours = 10, std_dev_hours = 2, pass_rate = 0.9, station_count = 2\<rparr>"

definition example_state :: "production_event sim_state" where
  "example_state =
     \<lparr>station_availability = [''Welding'' \<mapsto> [0, 0]],
      ship_completion_times = [''SN101'' \<mapsto> 0],
      production_log = []\<rparr>"

definition example_dash_state :: "log_row sim_state" where
  "example_dash_state =
     \<lparr>station_availability = [''Welding'' \<mapsto> [0, 0]],
      ship_completion_times = [''SN101'' \<mapsto> 0],
      production_log = []\<rparr>"




definition launch_config :: config where
  "launch_config =
     \<lparr>simulation_parameters = Some \<lparr>start_date = Some 0, num_starships = 1\<rparr>,
      production_stages = Some
        [(''Welding'', \<lparr>mean_time_hours = 10, std_dev_hours = 2, pass_rate = 0.9, station_count = 1\<rparr>),
         (''Launch'', \<lparr>mean_time_hours = 5, std_dev_hours = 1, pass_rate = 0.9, station_count = 1\<rparr>)],
      other_keys = []\<rparr>"

definition launch_ledger :: "log_row list" where
  "launch_ledger =
     [\<lparr>ship_id = ''SN101'', stage = ''Welding'', start_time = 0, end_time = 36000000000\<rparr>,
      \<lparr>ship_id = ''SN101'', stage = ''Launch'', start_time = 36000000000,
        end_time = 54000000000\<rparr>]"

section \<open>Station selection\<close>

lemma argmin_scan_spec:
  assumes "length pre = i" and "mi < i" and "pre ! mi = m"
    and "\<forall>j < i. m \<le> pre ! j" and "\<forall>j < mi. m < pre ! j"
  shows "argmin_scan xs i m mi < length (pre @ xs)
    \<and> (\<forall>j < length (pre @ xs). (pre @ xs) ! argmin_scan xs i m mi \<le> (pre @ xs) ! j)
    \<and> (\<forall>j < argmin_scan xs i m mi. (pre @ xs) ! argmin_scan xs i m mi < (pre @ xs) ! j)"
  using assms
proof (induction xs arbitrary: pre i m mi)
  case Nil
  then show ?case by simp
next
  case (Cons x xs)
  let ?pre = "pre @ [x]"
  have len: "length ?pre = Suc i" using Cons.prems(1) by simp
  have old: "\<And>j. j < i \<Longrightarrow> ?pre ! j = pre ! j"
    using Cons.prems(1) by (simp add: nth_append)
  have new: "?pre ! i = x"
    using Cons.prems(1) by (simp add: nth_append)
  show ?case
  proof (cases "x < m")
    case True
    have a: "i < Suc i" by simp
    have b: "?pre ! i = x" by (rule new)
    have c: "\<forall>j < Suc i. x \<le> ?pre ! j"
    proof (intro allI impI)
      fix j assume "j < Suc i"
      then consider "j < i" | "j = i" by linarith
      then show "x \<le> ?pre ! j"
      proof cases
        case 1
        then show ?thesis using Cons.prems(4) True old by force
      next
        case 2
        then show ?thesis using new by simp
      qed
    qed
    have d: "\<forall>j < i. x < ?pre ! j"
      using Cons.prems(4) True old by force
    from Cons.IH [OF len a b c d] True show ?thesis by simp
  next
    case False
    have a: "mi < Suc i" using Cons.prems(2) by simp
    have b: "?pre ! mi = m" using Cons.prems(2,3) old by simp
    have c: "\<forall>j < Suc i. m \<le> ?pre ! j"
    proof (intro allI impI)
      fix j assume "j < Suc i"
      then consider "j < i" | "j = i" by linarith
      then show "m \<le> ?pre ! j"
      proof cases
        case 1
        then show ?thesis using Cons.prems(4) old by simp
      next
        case 2
        then show ?thesis using new False by simp
      qed
    qed
    have d: "\<forall>j < mi. m < ?pre ! j"
      using Cons.prems(2,5) old by simp
    from Cons.IH [OF len a b c d] False show ?thesis by simp
  qed
qed

text \<open>
  C2. On every non-empty availability array the selection returns an index of the array
  whose entry is a minimum (no entry is smaller than the selected one), and every entry
  at a lower index is strictly larger: among tied minima the lowest index is returned.
\<close>

theorem argmin_selects_first_minimum:
  assumes "avail \<noteq> []"
  shows "\<exists>idx. argmin avail = Inr idx \<and> idx < length avail
    \<and> (\<forall>j < length avail. avail ! idx \<le> avail ! j)
    \<and> (\<forall>j < idx. avail ! idx < avail ! j)"
proof -
  from assms obtain x rest where xs: "avail = x # rest" by (cases avail) auto
  have "argmin_scan rest 1 x 0 < length ([x] @ rest)
    \<and> (\<forall>j < length ([x] @ rest). ([x] @ rest) ! argmin_scan rest 1 x 0 \<le> ([x] @ rest) ! j)
    \<and> (\<forall>j < argmin_scan rest 1 x 0. ([x] @ rest) ! argmin_scan rest 1 x 0 < ([x] @ rest) ! j)"
    by (rule argmin_scan_spec) simp_all
  then show ?thesis by (simp add: xs argmin_def)
qed

theorem argmin_selects_first_minimum_witness:
  "argmin [5, 3, 7, 3] = Inr 1 \<and> [5, 3, 7, 3 :: int] ! 1 = 3"
proof -
  have "[5, 3, 7, 3 :: int] \<noteq> []" by simp
  from argmin_selects_first_minimum [OF this] show ?thesis by (simp add: argmin_def)
qed


lemma argmin_InrD:
  assumes "argmin avail = Inr idx"
  shows "avail \<noteq> [] \<and> idx < length avail"
proof (cases avail)
  case Nil
  with assms show ?thesis by (simp add: argmin_def)
next
  case (Cons x rest)
  have "argmin_scan rest 1 x 0 < length ([x] @ rest)"
    using argmin_scan_spec [of "[x]" 1 0 x rest] by simp
  with assms Cons show ?thesis by (simp add: argmin_def)
qed

lemma argmin_two: "argmin [0, 0] = Inr 0" "argmin [52200000000, 0] = Inr 1"
  by (simp_all add: argmin_def)

section \<open>Rounding, durations and unit names\<close>

lemma round_half_even_ge_floor: "\<lfloor>x\<rfloor> \<le> round_half_even x"
  by (simp add: round_half_even_def Let_def)

lemma round_half_even_mono_int: "of_int k \<le> x \<Longrightarrow> k \<le> round_half_even x"
proof -
  assume "of_int k \<le> x"
  then have "k \<le> \<lfloor>x\<rfloor>" by (simp add: le_floor_iff)
  also have "\<dots> \<le> round_half_even x" by (rule round_half_even_ge_floor)
  finally show ?thesis .
qed

lemma timedelta_hours_nonneg: "0 \<le> h \<Longrightarrow> 0 \<le> timedelta_hours h"
  unfolding timedelta_hours_def by (rule round_half_even_mono_int) simp

lemma timedelta_hours_pos: "1 \<le> h \<Longrightarrow> 0 < timedelta_hours h"
proof -
  assume "1 \<le> h"
  then have "of_int 1 \<le> h * 3600000000" by simp
  then have "1 \<le> round_half_even (h * 3600000000)" by (rule round_half_even_mono_int)
  then show ?thesis by (simp add: timedelta_hours_def)
qed

lemma round2_ge_one: "1 \<le> x \<Longrightarrow> 1 \<le> round2 x"
proof -
  assume "1 \<le> x"
  then have "of_int 100 \<le> x * 100" by simp
  then have "100 \<le> round_half_even (x * 100)" by (rule round_half_even_mono_int)
  then have "(100::real) \<le> of_int (round_half_even (x * 100))" by linarith
  then show ?thesis by (simp add: round2_def)
qed


text \<open>Distinct units have distinct names.\<close>

lemma parse_nat_str_nat: "parse_nat (str_nat n) = n"
proof (induction n rule: str_nat.induct)
  case (1 n)
  show ?case
  proof (cases "n < 10")
    case True
    then show ?thesis
      by (subst str_nat.simps) (simp add: parse_nat_def digit_char_def)
  next
    case False
    with "1.IH" have "parse_nat (str_nat (n div 10)) = n div 10" by simp
    moreover have "of_char (digit_char (n mod 10)) - 48 = n mod 10"
      by (simp add: digit_char_def)
    ultimately show ?thesis using False
      by (subst str_nat.simps) (simp add: parse_nat_def)
  qed
qed

lemma str_nat_inj: "str_nat a = str_nat b \<Longrightarrow> a = b"
  by (metis parse_nat_str_nat)

lemma ship_name_inj: "0 \<le> i \<Longrightarrow> 0 \<le> j \<Longrightarrow> ship_name i = ship_name j \<Longrightarrow> i = j"
proof -
  assume "0 \<le> i" "0 \<le> j" "ship_name i = ship_name j"
  then have "str_nat (nat (100 + i)) = str_nat (nat (100 + j))"
    by (simp add: ship_name_def str_int_def)
  then have "nat (100 + i) = nat (100 + j)" by (rule str_nat_inj)
  with \<open>0 \<le> i\<close> \<open>0 \<le> j\<close> show ?thesis by simp
qed

lemma distinct_ship_names: "distinct (map ship_name [1..n])"
proof -
  have "inj_on ship_name (set [1..n])"
    by (rule inj_onI) (auto intro: ship_name_inj)
  then show ?thesis by (simp add: distinct_map)
qed

section \<open>One attempt\<close>

lemma attempt_eq:
  assumes "station_availability st n = Some avail" and "argmin avail = Inr idx"
    and "ship_completion_times st sid = Some ready" and "\<not> std_dev_hours sp < 0"
  shows "attempt sid n sp st d = Inr (snd d < pass_rate sp,
     \<lparr>station_availability = (station_availability st)(n \<mapsto> avail[idx := free_at sp ready avail idx d]),
      ship_completion_times = (ship_completion_times st)(sid \<mapsto> free_at sp ready avail idx d),
      production_log = production_log st @ [event_of sid n sp ready avail idx d]\<rparr>)"
  using assms by (simp add: attempt_def Let_def free_at_def finish_time_def event_of_def)

lemma attempt_InrD:
  assumes "attempt sid n sp st d = Inr r"
  shows "\<exists>avail idx ready. station_availability st n = Some avail \<and> argmin avail = Inr idx
    \<and> ship_completion_times st sid = Some ready \<and> \<not> std_dev_hours sp < 0"
  using assms by (auto simp: attempt_def split: option.splits sum.splits if_splits)


lemma dash_attempt_eq:
  assumes "station_availability st n = Some avail" and "argmin avail = Inr idx"
    and "ship_completion_times st sid = Some ready" and "\<not> std_dev_hours sp < 0"
  shows "dash_attempt sid n sp st d = Inr (snd d < pass_rate sp,
     \<lparr>station_availability = (station_availability st)(n \<mapsto> avail[idx := free_at sp ready avail idx d]),
      ship_completion_times = (ship_completion_times st)(sid \<mapsto> free_at sp ready avail idx d),
      production_log = production_log st @ [log_row.truncate (event_of sid n sp ready avail idx d)]\<rparr>)"
  using assms
  by (simp add: dash_attempt_def Let_def free_at_def finish_time_def event_of_def log_row.truncate_def)

lemma dash_attempt_InrD:
  assumes "dash_attempt sid n sp st d = Inr r"
  shows "\<exists>avail idx ready. station_availability st n = Some avail \<and> argmin avail = Inr idx
    \<and> ship_completion_times st sid = Some ready \<and> \<not> std_dev_hours sp < 0"
  using assms by (auto simp: dash_attempt_def split: option.splits sum.splits if_splits)

lemma finish_time_gt: "avail ! idx < finish_time ready avail idx d"
proof -
  have "0 < timedelta_hours (max 1 (fst d))" by (rule timedelta_hours_pos) simp
  then show ?thesis by (simp add: finish_time_def max_def)
qed

lemma free_at_gt:
  assumes "0 \<le> mean_time_hours sp \<or> snd d < pass_rate sp"
  shows "avail ! idx < free_at sp ready avail idx d"
proof (cases "snd d < pass_rate sp")
  case True
  then show ?thesis using finish_time_gt [of avail idx ready d] by (simp add: free_at_def)
next
  case False
  with assms have "0 \<le> mean_time_hours sp * 0.25" by simp
  then have "0 \<le> timedelta_hours (mean_time_hours sp * 0.25)" by (rule timedelta_hours_nonneg)
  with False show ?thesis using finish_time_gt [of avail idx ready d] by (simp add: free_at_def)
qed



section \<open>The dashboard ledger is a projection of the standalone ledger\<close>

lemma dash_attempt_project:
  "dash_attempt sid n sp (project_state st) d
     = map_sum id (map_prod id project_state) (attempt sid n sp st d)"
  by (simp add: dash_attempt_def attempt_def project_state_def Let_def log_row.truncate_def
      split: option.splits sum.splits)

lemma dash_stage_attempts_project:
  "dash_stage_attempts sid n sp (project_state st) ds
     = project_outcome (stage_attempts sid n sp st ds)"
proof (induction ds arbitrary: st)
  case Nil
  show ?case by (simp add: project_outcome_def)
next
  case (Cons d ds)
  show ?case
  proof (cases "attempt sid n sp st d")
    case (Inl e)
    then show ?thesis by (simp add: dash_attempt_project project_outcome_def)
  next
    case (Inr r)
    obtain passed st' where r: "r = (passed, st')" by (cases r)
    show ?thesis
    proof (cases passed)
      case True
      with Inr r show ?thesis by (simp add: dash_attempt_project project_outcome_def)
    next
      case False
      with Inr r Cons.IH [of st'] show ?thesis by (simp add: dash_attempt_project)
    qed
  qed
qed

lemma dash_run_stages_project:
  "dash_run_stages sid stages (project_state st) ds
     = project_outcome (run_stages sid stages st ds)"
proof (induction stages arbitrary: st ds)
  case Nil
  show ?case by (simp add: project_outcome_def)
next
  case (Cons s stages)
  obtain n sp where s: "s = (n, sp)" by (cases s)
  show ?case
  proof (cases "stage_attempts sid n sp st ds")
    case None
    then show ?thesis by (simp add: s dash_stage_attempts_project project_outcome_def)
  next
    case (Some r)
    show ?thesis
    proof (cases r)
      case (Inl e)
      with Some show ?thesis by (simp add: s dash_stage_attempts_project project_outcome_def)
    next
      case (Inr p)
      obtain st' ds' where p: "p = (st', ds')" by (cases p)
      have "dash_stage_attempts sid n sp (project_state st) ds = Some (Inr (project_state st', ds'))"
        using Some Inr p by (simp add: dash_stage_attempts_project project_outcome_def)
      with Some Inr p Cons.IH [of st' ds'] show ?thesis by (simp add: s)
    qed
  qed
qed

lemma dash_run_ships_project:
  "dash_run_ships ids start stages (project_state st) ds
     = project_outcome (run_ships ids start stages st ds)"
proof (induction ids arbitrary: st ds)
  case Nil
  show ?case by (simp add: project_outcome_def)
next
  case (Cons i ids)
  let ?st1 = "st\<lparr>ship_completion_times := (ship_completion_times st)(ship_name i \<mapsto> start)\<rparr>"
  have st1: "(project_state st)\<lparr>ship_completion_times :=
      (ship_completion_times (project_state st))(ship_name i \<mapsto> start)\<rparr> = project_state ?st1"
    by (simp add: project_state_def)
  show ?case
  proof (cases "run_stages (ship_name i) stages ?st1 ds")
    case None
    then show ?thesis
      by (simp add: st1 dash_run_stages_project project_outcome_def)
  next
    case (Some r)
    show ?thesis
    proof (cases r)
      case (Inl e)
      with Some show ?thesis
        by (simp add: st1 dash_run_stages_project project_outcome_def)
    next
      case (Inr p)
      obtain st' ds' where p: "p = (st', ds')" by (cases p)
      have "dash_run_stages (ship_name i) stages (project_state ?st1) ds
          = Some (Inr (project_state st', ds'))"
        using Some Inr p by (simp add: dash_run_stages_project project_outcome_def)
      with Some Inr p Cons.IH [of st' ds'] show ?thesis by (simp add: st1)
    qed
  qed
qed

lemma run_simulation_project:
  "run_simulation cfg ds
     = map_option (map_sum id (map log_row.truncate)) (run_configurable_simulation cfg ds)"
proof (cases "not_config cfg")
  case True
  then show ?thesis by (simp add: run_simulation_def run_configurable_simulation_def)
next
  case False
  then obtain c where c: "cfg = Some c" by (cases cfg) (auto simp: not_config_def)
  show ?thesis
  proof (cases "simulation_parameters c")
    case None
    with False c show ?thesis by (simp add: run_simulation_def run_configurable_simulation_def)
  next
    case params: (Some params)
    show ?thesis
    proof (cases "production_stages c")
      case None
      with False c params show ?thesis
        by (simp add: run_simulation_def run_configurable_simulation_def)
    next
      case stages: (Some stages)
      show ?thesis
      proof (cases "start_date params")
        case None
        with False c params stages show ?thesis
          by (simp add: run_simulation_def run_configurable_simulation_def)
      next
        case (Some start)
        let ?st0 = "\<lparr>station_availability = initial_availability start stages,
              ship_completion_times = Map.empty,
              production_log = [] :: production_event list\<rparr>"
        have st0: "\<lparr>station_availability = initial_availability start stages,
              ship_completion_times = Map.empty,
              production_log = [] :: log_row list\<rparr> = project_state ?st0"
          by (simp add: project_state_def)
        have run: "dash_run_ships [1..num_starships params] start stages (project_state ?st0) ds
          = project_outcome (run_ships [1..num_starships params] start stages ?st0 ds)"
          by (rule dash_run_ships_project)
        show ?thesis
        proof (cases "run_ships [1..num_starships params] start stages ?st0 ds")
          case None
          with False c params stages Some run show ?thesis
            by (simp add: run_simulation_def run_configurable_simulation_def st0 project_outcome_def)
        next
          case res: (Some r)
          show ?thesis
          proof (cases r)
            case (Inl e)
            with False c params stages Some run res show ?thesis
              by (simp add: run_simulation_def run_configurable_simulation_def st0 project_outcome_def)
          next
            case (Inr p)
            obtain st' ds' where p: "p = (st', ds')" by (cases p)
            have "dash_run_ships [1..num_starships params] start stages
                \<lparr>station_availability = initial_availability start stages,
                 ship_completion_times = Map.empty,
                 production_log = [] :: log_row list\<rparr> ds = Some (Inr (project_state st', ds'))"
              using run res Inr p by (simp add: st0 project_outcome_def)
            moreover have "production_log (project_state st')
                = map log_row.truncate (production_log st')"
              by (simp add: project_state_def)
            ultimately show ?thesis
              using False c params stages Some res Inr p
              by (simp add: run_simulation_def run_configurable_simulation_def)
          qed
        qed
      qed
    qed
  qed
qed

lemma example_run:
  "run_configurable_simulation (Some example_config) example_draws = Some (Inr example_ledger)"
  by code_simp

lemma example_config_fields:
  "simulation_parameters example_config = Some \<lparr>start_date = Some 0, num_starships = 2\<rparr>"
  "production_stages example_config = Some example_stages"
  by (simp_all add: example_config_def)

text \<open>
  C1. For every configuration and every list of draws, the dashboard engine's outcome is
  the standalone engine's outcome with every row of the ledger cut down to the columns
  \<open>ship_id\<close>, \<open>stage\<close>, \<open>start_time\<close> and \<open>end_time\<close>, row for row and in the same
  order (and the two engines fail, or do not finish, on the same inputs).
\<close>

theorem dashboard_ledger_is_projection:
  "run_simulation cfg ds
     = map_option (map_sum id (map log_row.truncate)) (run_configurable_simulation cfg ds)"
  by (rule run_simulation_project)

theorem dashboard_ledger_is_projection_witness:
  "run_simulation (Some example_config) example_draws
     = Some (Inr (map log_row.truncate example_ledger))"
  using dashboard_ledger_is_projection [of "Some example_config" example_draws]
  by (simp add: example_run)

section \<open>Shape of the ledger\<close>

lemma blocks_for_append:
  "blocks_for ps blks \<Longrightarrow> blocks_for qs cls \<Longrightarrow> blocks_for (ps @ qs) (blks @ cls)"
  by (induction ps blks rule: blocks_for.induct) auto

lemma stage_block_filter_same:
  "stage_block sid n blk \<Longrightarrow> filter (\<lambda>e. ship_id e = sid \<and> stage e = n) blk = blk"
  by (simp add: stage_block_def list_all_iff)

lemma stage_block_filter_other:
  "stage_block sid n blk \<Longrightarrow> (sid, n) \<noteq> (sid', n')
    \<Longrightarrow> filter (\<lambda>e. ship_id e = sid' \<and> stage e = n') blk = []"
  by (auto simp: stage_block_def list_all_iff filter_empty_conv)

lemma blocks_for_filter_absent:
  "blocks_for ps blks \<Longrightarrow> (sid, n) \<notin> set ps
    \<Longrightarrow> filter (\<lambda>e. ship_id e = sid \<and> stage e = n) (concat blks) = []"
proof (induction ps blks rule: blocks_for.induct)
  case (2 sid' n' ps blk blks)
  then have "filter (\<lambda>e. ship_id e = sid \<and> stage e = n) blk = []"
    using stage_block_filter_other [of sid' n' blk sid n] by auto
  with 2 show ?case by simp
qed simp_all

lemma blocks_for_filter:
  "blocks_for ps blks \<Longrightarrow> distinct ps \<Longrightarrow> (sid, n) \<in> set ps
    \<Longrightarrow> stage_block sid n (filter (\<lambda>e. ship_id e = sid \<and> stage e = n) (concat blks))"
proof (induction ps blks rule: blocks_for.induct)
  case (2 sid' n' ps blk blks)
  show ?case
  proof (cases "(sid', n') = (sid, n)")
    case True
    with 2 have "filter (\<lambda>e. ship_id e = sid \<and> stage e = n) (concat blks) = []"
      using blocks_for_filter_absent [of ps blks sid n] by auto
    moreover have "filter (\<lambda>e. ship_id e = sid \<and> stage e = n) blk = blk"
      using 2 True stage_block_filter_same [of sid n blk] by auto
    ultimately show ?thesis using 2 True by simp
  next
    case False
    then have "filter (\<lambda>e. ship_id e = sid \<and> stage e = n) blk = []"
      using 2 stage_block_filter_other [of sid' n' blk sid n] by auto
    with 2 False show ?thesis by auto
  qed
qed simp_all

lemma stage_block_one_pass:
  assumes "stage_block sid n blk"
  shows "length (filter qc_passed blk) = 1"
proof -
  from assms have ne: "blk \<noteq> []" and l: "qc_passed (last blk)"
    and b: "list_all (\<lambda>e. \<not> qc_passed e) (butlast blk)"
    by (simp_all add: stage_block_def)
  from b have "filter qc_passed (butlast blk) = []"
    by (simp add: list_all_iff filter_empty_conv)
  moreover have "blk = butlast blk @ [last blk]" using ne by simp
  ultimately have "filter qc_passed blk = [last blk]"
    using l by (metis append_Nil filter.simps(1,2) filter_append)
  then show ?thesis by simp
qed



lemma stage_attempts_log:
  assumes "stage_attempts sid n sp st ds = Some (Inr (st', ds'))"
  shows "\<exists>blk. production_log st' = production_log st @ blk \<and> stage_block sid n blk
    \<and> list_all (\<lambda>e. 1 \<le> duration_hours e) blk
    \<and> length ds = length blk + length ds'"
  using assms
proof (induction ds arbitrary: st)
  case Nil
  then show ?case by simp
next
  case (Cons d ds)
  from Cons.prems obtain r where r: "attempt sid n sp st d = Inr r"
    by (cases "attempt sid n sp st d") auto
  from attempt_InrD [OF r] obtain avail idx ready where
    h: "station_availability st n = Some avail" "argmin avail = Inr idx"
      "ship_completion_times st sid = Some ready" "\<not> std_dev_hours sp < 0"
    by blast
  let ?e = "event_of sid n sp ready avail idx d"
  let ?st1 = "\<lparr>station_availability = (station_availability st)(n \<mapsto> avail[idx := free_at sp ready avail idx d]),
      ship_completion_times = (ship_completion_times st)(sid \<mapsto> free_at sp ready avail idx d),
      production_log = production_log st @ [?e]\<rparr>"
  have att: "attempt sid n sp st d = Inr (snd d < pass_rate sp, ?st1)"
    using h by (rule attempt_eq)
  have e: "ship_id ?e = sid" "stage ?e = n" "qc_passed ?e = (snd d < pass_rate sp)"
    "1 \<le> duration_hours ?e"
    by (simp_all add: event_of_def round2_ge_one)
  show ?case
  proof (cases "snd d < pass_rate sp")
    case True
    with Cons.prems att have "st' = ?st1" "ds' = ds" by simp_all
    then have "production_log st' = production_log st @ [?e]" by simp
    moreover have "stage_block sid n [?e]" using e True by (simp add: stage_block_def)
    ultimately show ?thesis using e \<open>ds' = ds\<close> by (intro exI [of _ "[?e]"]) simp
  next
    case False
    with Cons.prems att have "stage_attempts sid n sp ?st1 ds = Some (Inr (st', ds'))" by simp
    from Cons.IH [OF this] obtain blk where
      blk: "production_log st' = production_log ?st1 @ blk" "stage_block sid n blk"
        "list_all (\<lambda>e. 1 \<le> duration_hours e) blk" "length ds = length blk + length ds'"
      by blast
    have "stage_block sid n (?e # blk)"
      using blk(2) e False by (auto simp: stage_block_def)
    with blk e show ?thesis by (intro exI [of _ "?e # blk"]) simp
  qed
qed

lemma run_stages_log:
  assumes "run_stages sid stages st ds = Some (Inr (st', ds'))"
  shows "\<exists>blks. production_log st' = production_log st @ concat blks
    \<and> blocks_for (stage_pairs sid stages) blks
    \<and> list_all (\<lambda>e. 1 \<le> duration_hours e) (concat blks)
    \<and> length ds = length (concat blks) + length ds'"
  using assms
proof (induction stages arbitrary: st ds)
  case Nil
  then show ?case by (intro exI [of _ "[]"]) (simp add: stage_pairs_def)
next
  case (Cons s stages)
  obtain n sp where s: "s = (n, sp)" by (cases s)
  from Cons.prems s obtain st1 ds1 where
    one: "stage_attempts sid n sp st ds = Some (Inr (st1, ds1))"
    and rest: "run_stages sid stages st1 ds1 = Some (Inr (st', ds'))"
    by (auto split: option.splits sum.splits)
  from stage_attempts_log [OF one] obtain blk where
    blk: "production_log st1 = production_log st @ blk" "stage_block sid n blk"
      "list_all (\<lambda>e. 1 \<le> duration_hours e) blk" "length ds = length blk + length ds1"
    by blast
  from Cons.IH [OF rest] obtain blks where
    blks: "production_log st' = production_log st1 @ concat blks"
      "blocks_for (stage_pairs sid stages) blks"
      "list_all (\<lambda>e. 1 \<le> duration_hours e) (concat blks)"
      "length ds1 = length (concat blks) + length ds'"
    by blast
  have "blocks_for (stage_pairs sid (s # stages)) (blk # blks)"
    using blk(2) blks(2) by (simp add: stage_pairs_def s)
  with blk blks show ?case by (intro exI [of _ "blk # blks"]) simp
qed

lemma run_ships_log:
  assumes "run_ships ids start stages st ds = Some (Inr (st', ds'))"
  shows "\<exists>blks. production_log st' = production_log st @ concat blks
    \<and> blocks_for (run_pairs ids stages) blks
    \<and> list_all (\<lambda>e. 1 \<le> duration_hours e) (concat blks)
    \<and> length ds = length (concat blks) + length ds'"
  using assms
proof (induction ids arbitrary: st ds)
  case Nil
  then show ?case by (intro exI [of _ "[]"]) (simp add: run_pairs_def)
next
  case (Cons i ids)
  let ?st0 = "st\<lparr>ship_completion_times := (ship_completion_times st)(ship_name i \<mapsto> start)\<rparr>"
  from Cons.prems obtain st1 ds1 where
    one: "run_stages (ship_name i) stages ?st0 ds = Some (Inr (st1, ds1))"
    and rest: "run_ships ids start stages st1 ds1 = Some (Inr (st', ds'))"
    by (auto split: option.splits sum.splits)
  from run_stages_log [OF one] obtain blks where
    blks: "production_log st1 = production_log st @ concat blks"
      "blocks_for (stage_pairs (ship_name i) stages) blks"
      "list_all (\<lambda>e. 1 \<le> duration_hours e) (concat blks)"
      "length ds = length (concat blks) + length ds1"
    by auto
  from Cons.IH [OF rest] obtain cls where
    cls: "production_log st' = production_log st1 @ concat cls"
      "blocks_for (run_pairs ids stages) cls"
      "list_all (\<lambda>e. 1 \<le> duration_hours e) (concat cls)"
      "length ds1 = length (concat cls) + length ds'"
    by blast
  have "blocks_for (run_pairs (i # ids) stages) (blks @ cls)"
    using blks(2) cls(2) by (simp add: run_pairs_def blocks_for_append)
  with blks cls show ?case by (intro exI [of _ "blks @ cls"]) simp
qed

lemma distinct_run_pairs:
  assumes "distinct (map fst stages)" and "distinct (map ship_name ids)"
  shows "distinct (run_pairs ids stages)"
  using assms(2)
proof (induction ids)
  case Nil
  show ?case by (simp add: run_pairs_def)
next
  case (Cons i ids)
  have a: "distinct (stage_pairs (ship_name i) stages)"
    using assms(1) by (simp add: stage_pairs_def distinct_map inj_on_def)
  have b: "fst ` set (run_pairs ids stages) \<subseteq> ship_name ` set ids"
    by (auto simp: run_pairs_def stage_pairs_def)
  have c: "fst ` set (stage_pairs (ship_name i) stages) \<subseteq> {ship_name i}"
    by (auto simp: stage_pairs_def)
  have "set (stage_pairs (ship_name i) stages) \<inter> set (run_pairs ids stages) = {}"
  proof (rule ccontr)
    assume "set (stage_pairs (ship_name i) stages) \<inter> set (run_pairs ids stages) \<noteq> {}"
    then obtain p where p: "p \<in> set (stage_pairs (ship_name i) stages)"
      "p \<in> set (run_pairs ids stages)" by blast
    from p(1) c have "fst p = ship_name i" by blast
    moreover from p(2) b have "fst p \<in> ship_name ` set ids" by blast
    ultimately show False using Cons.prems by auto
  qed
  moreover have "run_pairs (i # ids) stages
      = stage_pairs (ship_name i) stages @ run_pairs ids stages"
    by (simp add: run_pairs_def)
  ultimately show ?case using a Cons by simp
qed

lemma run_configurable_simulation_InrD:
  assumes "run_configurable_simulation cfg ds = Some (Inr ledger)"
  shows "(not_config cfg \<and> ledger = []) \<or>
    (\<exists>c params stages start st rest. cfg = Some c \<and> simulation_parameters c = Some params
      \<and> production_stages c = Some stages \<and> start_date params = Some start
      \<and> run_ships [1..num_starships params] start stages
           \<lparr>station_availability = initial_availability start stages,
            ship_completion_times = Map.empty, production_log = []\<rparr> ds = Some (Inr (st, rest))
      \<and> ledger = production_log st)"
proof (cases "not_config cfg")
  case True
  with assms show ?thesis by (simp add: run_configurable_simulation_def)
next
  case False
  then obtain c where "cfg = Some c" by (cases cfg) (auto simp: not_config_def)
  with False assms show ?thesis
    by (auto simp: run_configurable_simulation_def
        split: option.splits sum.splits prod.splits)
qed

text \<open>
  C4. In a ledger that the standalone engine returns, the rows of any unit of the run and
  any stage of the configuration are not empty, the last of them has \<open>qc_passed\<close> true,
  all the others have it false, and exactly one row has it true. The premise
  \<open>pass_rate > 0\<close> of the specification is what lets a stage loop end; the theorem needs
  only that the run has returned. The dashboard engine's rows have no \<open>qc_passed\<close>
  column.
\<close>

theorem qc_history_of_unit_and_stage:
  assumes run: "run_configurable_simulation (Some c) ds = Some (Inr ledger)"
    and params: "simulation_parameters c = Some params"
    and stages: "production_stages c = Some stages"
    and names: "distinct (map fst stages)"
    and unit: "1 \<le> i" "i \<le> num_starships params"
    and stage: "(n, sp) \<in> set stages"
  shows "let evs = filter (\<lambda>e. ship_id e = ship_name i \<and> stage e = n) ledger
    in evs \<noteq> [] \<and> qc_passed (last evs) \<and> (\<forall>e \<in> set (butlast evs). \<not> qc_passed e)
      \<and> length (filter qc_passed evs) = 1"
proof -
  from run_configurable_simulation_InrD [OF run] params stages
  obtain start st rest where
    r: "run_ships [1..num_starships params] start stages
           \<lparr>station_availability = initial_availability start stages,
            ship_completion_times = Map.empty, production_log = []\<rparr> ds = Some (Inr (st, rest))"
    and l: "ledger = production_log st"
    by (auto simp: not_config_def)
  from run_ships_log [OF r] l obtain blks where
    blks: "ledger = concat blks" "blocks_for (run_pairs [1..num_starships params] stages) blks"
    by auto
  have d: "distinct (run_pairs [1..num_starships params] stages)"
    using names distinct_ship_names by (rule distinct_run_pairs)
  have m: "(ship_name i, n) \<in> set (run_pairs [1..num_starships params] stages)"
    using unit stage by (force simp: run_pairs_def stage_pairs_def)
  let ?evs = "filter (\<lambda>e. ship_id e = ship_name i \<and> stage e = n) ledger"
  have b: "stage_block (ship_name i) n ?evs"
    using blocks_for_filter [OF blks(2) d m] blks(1) by simp
  then have "?evs \<noteq> []" "qc_passed (last ?evs)" "\<forall>e \<in> set (butlast ?evs). \<not> qc_passed e"
    by (simp_all add: stage_block_def list_all_iff)
  moreover have "length (filter qc_passed ?evs) = 1"
    using b by (rule stage_block_one_pass)
  ultimately show ?thesis by (simp add: Let_def)
qed

theorem qc_history_of_unit_and_stage_witness:
  "run_configurable_simulation (Some example_config) example_draws = Some (Inr example_ledger)
   \<and> length (filter (\<lambda>e. ship_id e = ship_name 2 \<and> stage e = ''Final_Checkout'') example_ledger) = 2
   \<and> qc_passed (last (filter (\<lambda>e. ship_id e = ship_name 2 \<and> stage e = ''Final_Checkout'') example_ledger))
   \<and> length (filter qc_passed
        (filter (\<lambda>e. ship_id e = ship_name 2 \<and> stage e = ''Final_Checkout'') example_ledger)) = 1"
proof -
  have names: "distinct (map fst example_stages)" by (simp add: example_stages_def)
  have unit: "(1::int) \<le> 2" "(2::int) \<le> num_starships \<lparr>start_date = Some 0, num_starships = 2\<rparr>"
    by simp_all
  have stage: "(''Final_Checkout'',
      \<lparr>mean_time_hours = 8, std_dev_hours = 1, pass_rate = 0.95, station_count = 1\<rparr>)
        \<in> set example_stages"
    by (simp add: example_stages_def)
  have two: "length (filter (\<lambda>e. ship_id e = ship_name 2 \<and> stage e = ''Final_Checkout'')
      example_ledger) = 2"
    by code_simp
  from qc_history_of_unit_and_stage [OF example_run example_config_fields names unit stage] two
  show ?thesis by (simp add: Let_def example_run)
qed

text \<open>
  C5. Every row of a ledger that the standalone engine returns has
  \<open>duration_hours \<ge> 1\<close>: the sample is raised to 1 before use, and rounding to two
  decimals keeps the bound. This holds for all stage parameters, valid or not.
\<close>

theorem duration_hours_at_least_one:
  assumes "run_configurable_simulation cfg ds = Some (Inr ledger)"
  shows "\<forall>e \<in> set ledger. 1 \<le> duration_hours e"
proof -
  from run_configurable_simulation_InrD [OF assms]
  consider "ledger = []"
    | start stages ids st rest where
      "run_ships ids start stages
           \<lparr>station_availability = initial_availability start stages,
            ship_completion_times = Map.empty, production_log = []\<rparr> ds = Some (Inr (st, rest))"
      "ledger = production_log st"
    by blast
  then show ?thesis
  proof cases
    case 1
    then show ?thesis by simp
  next
    case 2
    from run_ships_log [OF 2(1)] 2(2) show ?thesis
      by (auto simp: list_all_iff)
  qed
qed

theorem duration_hours_at_least_one_witness:
  "run_configurable_simulation (Some example_config) example_draws = Some (Inr example_ledger)
   \<and> list_all (\<lambda>e. 1 \<le> duration_hours e) example_ledger
   \<and> duration_hours (example_ledger ! 3) = 1"
proof -
  have "duration_hours (example_ledger ! 3) = 1" by (simp add: example_ledger_def)
  with duration_hours_at_least_one [OF example_run] example_run show ?thesis
    by (simp add: list_all_iff)
qed

section \<open>Station availability never decreases\<close>

lemma avail_le_refl: "avail_le m m"
  by (simp add: avail_le_def)

lemma avail_le_trans: "avail_le a b \<Longrightarrow> avail_le b c \<Longrightarrow> avail_le a c"
  unfolding avail_le_def
proof (intro allI impI)
  fix n x assume ab: "\<forall>n avail. a n = Some avail \<longrightarrow>
        (\<exists>avail'. b n = Some avail' \<and> length avail' = length avail
          \<and> (\<forall>j < length avail. avail ! j \<le> avail' ! j))"
    and bc: "\<forall>n avail. b n = Some avail \<longrightarrow>
        (\<exists>avail'. c n = Some avail' \<and> length avail' = length avail
          \<and> (\<forall>j < length avail. avail ! j \<le> avail' ! j))"
    and x: "a n = Some x"
  from ab x obtain y where y: "b n = Some y" "length y = length x"
    "\<forall>j < length x. x ! j \<le> y ! j" by blast
  from bc y(1) obtain z where z: "c n = Some z" "length z = length y"
    "\<forall>j < length y. y ! j \<le> z ! j" by blast
  have "\<forall>j < length x. x ! j \<le> z ! j"
  proof (intro allI impI)
    fix j assume "j < length x"
    with y z have "x ! j \<le> y ! j" "y ! j \<le> z ! j" by simp_all
    then show "x ! j \<le> z ! j" by simp
  qed
  with z y show "\<exists>avail'. c n = Some avail' \<and> length avail' = length x
          \<and> (\<forall>j < length x. x ! j \<le> avail' ! j)" by simp
qed

lemma avail_le_update:
  assumes "m n = Some avail" and "avail ! idx \<le> v"
  shows "avail_le m (m(n \<mapsto> avail[idx := v]))"
  unfolding avail_le_def
proof (intro allI impI)
  fix n' a assume a: "m n' = Some a"
  show "\<exists>avail'. (m(n \<mapsto> avail[idx := v])) n' = Some avail' \<and> length avail' = length a
          \<and> (\<forall>j < length a. a ! j \<le> avail' ! j)"
  proof (cases "n' = n")
    case True
    with a assms have "a = avail" by simp
    have "\<forall>j < length avail. avail ! j \<le> avail[idx := v] ! j"
    proof (intro allI impI)
      fix j assume "j < length avail"
      then show "avail ! j \<le> avail[idx := v] ! j"
        using assms(2) by (cases "j = idx") simp_all
    qed
    with True \<open>a = avail\<close> show ?thesis by simp
  next
    case False
    with a show ?thesis by simp
  qed
qed

lemma attempt_avail_le:
  assumes "attempt sid n sp st d = Inr (passed, st')" and "0 \<le> mean_time_hours sp"
  shows "avail_le (station_availability st) (station_availability st')"
proof -
  from attempt_InrD [OF assms(1)] obtain avail idx ready where
    h: "station_availability st n = Some avail" "argmin avail = Inr idx"
      "ship_completion_times st sid = Some ready" "\<not> std_dev_hours sp < 0"
    by blast
  from attempt_eq [OF h, of d] assms(1)
  have "station_availability st'
      = (station_availability st)(n \<mapsto> avail[idx := free_at sp ready avail idx d])"
    by auto
  moreover have "avail ! idx \<le> free_at sp ready avail idx d"
    using free_at_gt [of sp d avail idx ready] assms(2) by simp
  ultimately show ?thesis
    using avail_le_update [of "station_availability st" n avail idx] h(1) by simp
qed

lemma stage_attempts_avail_le:
  assumes "stage_attempts sid n sp st ds = Some (Inr (st', ds'))" and "0 \<le> mean_time_hours sp"
  shows "avail_le (station_availability st) (station_availability st')"
  using assms(1)
proof (induction ds arbitrary: st)
  case Nil
  then show ?case by simp
next
  case (Cons d ds)
  from Cons.prems obtain passed st1 where a: "attempt sid n sp st d = Inr (passed, st1)"
    by (cases "attempt sid n sp st d") auto
  have le1: "avail_le (station_availability st) (station_availability st1)"
    using a assms(2) by (rule attempt_avail_le)
  show ?case
  proof (cases passed)
    case True
    with Cons.prems a have "st' = st1" by simp
    with le1 show ?thesis by simp
  next
    case False
    with Cons.prems a have "stage_attempts sid n sp st1 ds = Some (Inr (st', ds'))" by simp
    from Cons.IH [OF this] le1 show ?thesis by (rule avail_le_trans [rotated])
  qed
qed

lemma run_stages_avail_le:
  assumes "run_stages sid stages st ds = Some (Inr (st', ds'))"
    and "list_all (\<lambda>s. 0 \<le> mean_time_hours (snd s)) stages"
  shows "avail_le (station_availability st) (station_availability st')"
  using assms
proof (induction stages arbitrary: st ds)
  case Nil
  then show ?case by (simp add: avail_le_refl)
next
  case (Cons s stages)
  obtain n sp where s: "s = (n, sp)" by (cases s)
  from Cons.prems(1) s obtain st1 ds1 where
    one: "stage_attempts sid n sp st ds = Some (Inr (st1, ds1))"
    and rest: "run_stages sid stages st1 ds1 = Some (Inr (st', ds'))"
    by (auto split: option.splits sum.splits)
  have "avail_le (station_availability st) (station_availability st1)"
    using one Cons.prems(2) s by (auto intro: stage_attempts_avail_le)
  moreover have "avail_le (station_availability st1) (station_availability st')"
    using Cons.IH [OF rest] Cons.prems(2) by simp
  ultimately show ?case by (rule avail_le_trans)
qed

lemma run_ships_avail_le:
  assumes "run_ships ids start stages st ds = Some (Inr (st', ds'))"
    and "list_all (\<lambda>s. 0 \<le> mean_time_hours (snd s)) stages"
  shows "avail_le (station_availability st) (station_availability st')"
  using assms(1)
proof (induction ids arbitrary: st ds)
  case Nil
  then show ?case by (simp add: avail_le_refl)
next
  case (Cons i ids)
  let ?st0 = "st\<lparr>ship_completion_times := (ship_completion_times st)(ship_name i \<mapsto> start)\<rparr>"
  from Cons.prems obtain st1 ds1 where
    one: "run_stages (ship_name i) stages ?st0 ds = Some (Inr (st1, ds1))"
    and rest: "run_ships ids start stages st1 ds1 = Some (Inr (st', ds'))"
    by (auto split: option.splits sum.splits)
  have "avail_le (station_availability ?st0) (station_availability st1)"
    using one assms(2) by (rule run_stages_avail_le)
  then have "avail_le (station_availability st) (station_availability st1)" by simp
  moreover have "avail_le (station_availability st1) (station_availability st')"
    using Cons.IH [OF rest] .
  ultimately show ?case by (rule avail_le_trans)
qed

text \<open>
  C6. The body of the loop is the only place that writes a station's availability. When
  the stage's \<open>mean_time_hours\<close> is not negative (the data model has it positive), a
  pass of the body, in either engine, overwrites the entry of the selected station by a
  value that is at least the overwritten one; hence over the whole loop over the units
  every station's availability at the end is at least its availability at the start.
\<close>

theorem availability_non_decreasing:
  "(0 \<le> mean_time_hours sp \<and> attempt sid n sp st d = Inr (passed, st') \<longrightarrow>
      (\<exists>avail idx v. station_availability st n = Some avail \<and> argmin avail = Inr idx
        \<and> idx < length avail
        \<and> station_availability st' = (station_availability st)(n \<mapsto> avail[idx := v])
        \<and> avail ! idx \<le> v))
   \<and> (0 \<le> mean_time_hours sp \<and> dash_attempt sid n sp dst d = Inr (passed, dst') \<longrightarrow>
      (\<exists>avail idx v. station_availability dst n = Some avail \<and> argmin avail = Inr idx
        \<and> idx < length avail
        \<and> station_availability dst' = (station_availability dst)(n \<mapsto> avail[idx := v])
        \<and> avail ! idx \<le> v))
   \<and> (list_all (\<lambda>s. 0 \<le> mean_time_hours (snd s)) stages
        \<and> run_ships ids start stages st0 ds = Some (Inr (st1, ds1)) \<longrightarrow>
      (\<forall>m avail. station_availability st0 m = Some avail \<longrightarrow>
        (\<exists>avail'. station_availability st1 m = Some avail' \<and> length avail' = length avail
          \<and> (\<forall>j < length avail. avail ! j \<le> avail' ! j))))"
proof (intro conjI impI)
  assume "0 \<le> mean_time_hours sp \<and> attempt sid n sp st d = Inr (passed, st')"
  then have mean: "0 \<le> mean_time_hours sp" and a: "attempt sid n sp st d = Inr (passed, st')"
    by simp_all
  from attempt_InrD [OF a] obtain avail idx ready where
    h: "station_availability st n = Some avail" "argmin avail = Inr idx"
      "ship_completion_times st sid = Some ready" "\<not> std_dev_hours sp < 0"
    by blast
  from attempt_eq [OF h, of d] a
  have "station_availability st'
      = (station_availability st)(n \<mapsto> avail[idx := free_at sp ready avail idx d])"
    by auto
  moreover have "avail ! idx \<le> free_at sp ready avail idx d"
    using free_at_gt [of sp d avail idx ready] mean by simp
  moreover have "idx < length avail" using argmin_InrD [OF h(2)] by simp
  ultimately show "\<exists>avail idx v. station_availability st n = Some avail \<and> argmin avail = Inr idx
        \<and> idx < length avail
        \<and> station_availability st' = (station_availability st)(n \<mapsto> avail[idx := v])
        \<and> avail ! idx \<le> v"
    using h by blast
next
  assume "0 \<le> mean_time_hours sp \<and> dash_attempt sid n sp dst d = Inr (passed, dst')"
  then have mean: "0 \<le> mean_time_hours sp"
    and a: "dash_attempt sid n sp dst d = Inr (passed, dst')"
    by simp_all
  from dash_attempt_InrD [OF a] obtain avail idx ready where
    h: "station_availability dst n = Some avail" "argmin avail = Inr idx"
      "ship_completion_times dst sid = Some ready" "\<not> std_dev_hours sp < 0"
    by blast
  from dash_attempt_eq [OF h, of d] a
  have "station_availability dst'
      = (station_availability dst)(n \<mapsto> avail[idx := free_at sp ready avail idx d])"
    by auto
  moreover have "avail ! idx \<le> free_at sp ready avail idx d"
    using free_at_gt [of sp d avail idx ready] mean by simp
  moreover have "idx < length avail" using argmin_InrD [OF h(2)] by simp
  ultimately show "\<exists>avail idx v. station_availability dst n = Some avail \<and> argmin avail = Inr idx
        \<and> idx < length avail
        \<and> station_availability dst' = (station_availability dst)(n \<mapsto> avail[idx := v])
        \<and> avail ! idx \<le> v"
    using h by blast
next
  assume "list_all (\<lambda>s. 0 \<le> mean_time_hours (snd s)) stages
        \<and> run_ships ids start stages st0 ds = Some (Inr (st1, ds1))"
  then have "avail_le (station_availability st0) (station_availability st1)"
    using run_ships_avail_le by blast
  then show "\<forall>m avail. station_availability st0 m = Some avail \<longrightarrow>
        (\<exists>avail'. station_availability st1 m = Some avail' \<and> length avail' = length avail
          \<and> (\<forall>j < length avail. avail ! j \<le> avail' ! j))"
    by (simp add: avail_le_def)
qed

theorem availability_non_decreasing_witness:
  "(\<exists>st' avail idx v.
      attempt ''SN101'' ''Welding'' welding example_state (12, 0.95) = Inr (False, st')
      \<and> station_availability example_state ''Welding'' = Some avail \<and> argmin avail = Inr idx
      \<and> station_availability st'
          = (station_availability example_state)(''Welding'' \<mapsto> avail[idx := v])
      \<and> avail ! idx \<le> v)
   \<and> (\<exists>dst' avail idx v.
      dash_attempt ''SN101'' ''Welding'' welding example_dash_state (12, 0.95) = Inr (False, dst')
      \<and> station_availability example_dash_state ''Welding'' = Some avail \<and> argmin avail = Inr idx
      \<and> station_availability dst'
          = (station_availability example_dash_state)(''Welding'' \<mapsto> avail[idx := v])
      \<and> avail ! idx \<le> v)
   \<and> (\<exists>st1 ds1. run_ships [1..2] 0 example_stages
        \<lparr>station_availability = initial_availability 0 example_stages,
         ship_completion_times = Map.empty, production_log = []\<rparr> example_draws
          = Some (Inr (st1, ds1))
      \<and> avail_le (initial_availability 0 example_stages) (station_availability st1))"
proof (intro conjI)
  have mean: "0 \<le> mean_time_hours welding" by (simp add: welding_def)
  have nstd: "\<not> std_dev_hours welding < 0" by (simp add: welding_def)
  have fail: "\<not> snd (12 :: real, 0.95 :: real) < pass_rate welding" by (simp add: welding_def)
  have avail: "station_availability example_state ''Welding'' = Some [0, 0]"
    and ready: "ship_completion_times example_state ''SN101'' = Some 0"
    by (simp_all add: example_state_def)
  from attempt_eq [OF avail argmin_two(1) ready nstd, of "(12, 0.95)"] fail
  obtain st' where a: "attempt ''SN101'' ''Welding'' welding example_state (12, 0.95)
      = Inr (False, st')" by simp
  from availability_non_decreasing [of welding "''SN101''" "''Welding''" example_state
      "(12, 0.95)" False st'] mean a
  show "\<exists>st' avail idx v.
      attempt ''SN101'' ''Welding'' welding example_state (12, 0.95) = Inr (False, st')
      \<and> station_availability example_state ''Welding'' = Some avail \<and> argmin avail = Inr idx
      \<and> station_availability st'
          = (station_availability example_state)(''Welding'' \<mapsto> avail[idx := v])
      \<and> avail ! idx \<le> v"
    by blast
  have davail: "station_availability example_dash_state ''Welding'' = Some [0, 0]"
    and dready: "ship_completion_times example_dash_state ''SN101'' = Some 0"
    by (simp_all add: example_dash_state_def)
  from dash_attempt_eq [OF davail argmin_two(1) dready nstd, of "(12, 0.95)"] fail
  obtain dst' where b: "dash_attempt ''SN101'' ''Welding'' welding example_dash_state (12, 0.95)
      = Inr (False, dst')" by simp
  from availability_non_decreasing [of welding "''SN101''" "''Welding''" _ "(12, 0.95)" False _
      example_dash_state dst'] mean b
  show "\<exists>dst' avail idx v.
      dash_attempt ''SN101'' ''Welding'' welding example_dash_state (12, 0.95) = Inr (False, dst')
      \<and> station_availability example_dash_state ''Welding'' = Some avail \<and> argmin avail = Inr idx
      \<and> station_availability dst'
          = (station_availability example_dash_state)(''Welding'' \<mapsto> avail[idx := v])
      \<and> avail ! idx \<le> v"
    by blast
  let ?st0 = "\<lparr>station_availability = initial_availability 0 example_stages,
         ship_completion_times = Map.empty, production_log = [] :: production_event list\<rparr>"
  from run_configurable_simulation_InrD [OF example_run] example_config_fields
  obtain st1 ds1 where r: "run_ships [1..2] 0 example_stages ?st0 example_draws
      = Some (Inr (st1, ds1))"
    by (auto simp: not_config_def)
  have means: "list_all (\<lambda>s. 0 \<le> mean_time_hours (snd s)) example_stages"
    by (simp add: example_stages_def)
  from availability_non_decreasing [of _ _ _ _ _ _ _ _ _ example_stages "[1..2]" 0 ?st0
      example_draws st1 ds1] means r
  have "avail_le (initial_availability 0 example_stages) (station_availability st1)"
    by (simp add: avail_le_def)
  with r show "\<exists>st1 ds1. run_ships [1..2] 0 example_stages ?st0 example_draws
          = Some (Inr (st1, ds1))
      \<and> avail_le (initial_availability 0 example_stages) (station_availability st1)"
    by blast
qed

section \<open>KPIs\<close>




text \<open>
  C10. A ledger that is not empty and has no row of the stage named \<^verbatim>\<open>Final_Checkout\<close>
  gives \<open>(0, 0, 0)\<close>, whatever its other rows are. The name is a constant of the
  function, which does not see the configuration: the ledger of a configuration whose
  last stage has another name gives \<open>(0, 0, 0)\<close>.
\<close>

theorem no_final_checkout_gives_zero:
  assumes "dataframe \<noteq> []" and "\<forall>r \<in> set dataframe. stage r \<noteq> ''Final_Checkout''"
  shows "calculate_kpis dataframe = (0, 0, 0)"
proof -
  from assms(2) have "filter (\<lambda>r. stage r = ''Final_Checkout'') dataframe = []"
    by (simp add: filter_empty_conv)
  then show ?thesis by (simp add: calculate_kpis_def)
qed

theorem no_final_checkout_gives_zero_witness:
  "run_simulation (Some launch_config) [(10, 0.1), (5, 0.1)] = Some (Inr launch_ledger)
   \<and> launch_ledger \<noteq> [] \<and> calculate_kpis launch_ledger = (0, 0, 0)"
proof -
  have r: "run_simulation (Some launch_config) [(10, 0.1), (5, 0.1)] = Some (Inr launch_ledger)"
    by code_simp
  have ne: "launch_ledger \<noteq> []" by (simp add: launch_ledger_def)
  have no: "\<forall>r \<in> set launch_ledger. stage r \<noteq> ''Final_Checkout''"
    by (simp add: launch_ledger_def)
  from no_final_checkout_gives_zero [OF ne no] r ne show ?thesis by simp
qed

section \<open>The outcome depends on the configuration and the draws only\<close>












section \<open>Absent configurations, and when a run returns\<close>











end
